theory Spec2Isabelle
  imports Main
begin

section \<open>Data model of openr/decision/RibPolicy.cpp\<close>

text \<open>
  The thrift structures and the route entry are declared in headers outside the
  translation unit. Their fields are the ones RibPolicy.cpp reads and writes; every
  other field of a next-hop or of a route lives in the record's extension slot, so
  that the functions below are defined for (and the theorems hold of) any richer
  declaration.
\<close>

text \<open>
  Modelled from the spec: the integer types of the thrift fields \<open>weight\<close>,
  \<open>default_weight\<close>, \<open>area_to_weight\<close> and \<open>ttl_secs\<close>, whose declarations are not part of
  the translation unit. The spec gives \<open>default_weight: uint\<close>,
  \<open>area_to_weight: map<area_id, uint>\<close>, a next-hop weight that is a non-negative integer
  and \<open>ttl_secs: integer seconds\<close>; weights are \<open>nat\<close> and \<open>ttl_secs\<close> is \<open>int\<close>. No
  arithmetic is done on weights: they are only compared with 0 and copied. A thrift
  integer field has a fixed width; the width of \<open>ttl_secs\<close> is the parameter \<open>bits\<close> of
  \<open>RibPolicy_toThrift\<close>, the one place where the program stores a computed value into the
  field.
\<close>

record NextHopThrift =
  address :: string
  area :: "string option"
  weight :: nat

record RibRouteActionWeight =
  default_weight :: nat
  area_to_weight :: "string \<rightharpoonup> nat"

record RibRouteAction =
  set_weight :: "RibRouteActionWeight option"

record 'p RibRouteMatcher =
  prefixes :: "'p list option"

text \<open>\<open>thrift::RibPolicyStatement\<close> and \<open>thrift::RibPolicy\<close>: the definition forms.
  \<open>'p\<close> is \<open>thrift::IpPrefix\<close>.\<close>

record 'p thrift_RibPolicyStatement =
  name :: string
  matcher :: "'p RibRouteMatcher"
  action :: RibRouteAction

record 'p thrift_RibPolicy =
  statements :: "'p thrift_RibPolicyStatement list"
  ttl_secs :: int

text \<open>\<open>RibUnicastEntry\<close>; \<open>'n\<close> is \<open>folly::CIDRNetwork\<close>. \<open>nexthops\<close> is a
  \<open>std::unordered_set<thrift::NextHopThrift>\<close>.\<close>

record ('n, 'x) RibUnicastEntry =
  prefix :: 'n
  nexthops :: "'x NextHopThrift_scheme set"

text \<open>The classes \<open>openr::RibPolicyStatement\<close> and \<open>openr::RibPolicy\<close>. The members
  \<open>name_\<close>, \<open>action_\<close>, \<open>prefixSet_\<close>, \<open>policyStatements_\<close> and \<open>validUntilTs_\<close> are written
  with a prime, since a name cannot end in an underscore here.\<close>

record 'n RibPolicyStatement =
  name' :: string
  action' :: RibRouteAction
  prefixSet' :: "'n set"

text \<open>A \<open>std::chrono::steady_clock::time_point\<close> and the difference of two of them count
  nanoseconds, the period of \<open>steady_clock\<close> in libstdc++ and libc++. The current instant
  \<open>steady_clock::now()\<close> is an explicit argument \<open>now\<close> of every function that reads the
  clock. Instants and durations are unbounded integers: the 64-bit range of the clock
  (some 292 years in nanoseconds) is not modelled.\<close>

type_synonym time_point = int
type_synonym nanoseconds = int

record 'n RibPolicy =
  policyStatements' :: "'n RibPolicyStatement list"
  validUntilTs' :: time_point

text \<open>\<open>thrift::OpenrError\<close> with its message; a failed \<open>CHECK\<close> aborts the process.\<close>

datatype OpenrError = OpenrError string

datatype fatal = CheckFailed

section \<open>RibPolicyStatement\<close>

text \<open>The constructor. \<open>toIPNetwork\<close> (openr/common/NetworkUtil.h) is not part of the
  translation unit and is a parameter. The loop inserts every converted prefix into
  \<open>prefixSet_\<close>, starting from the empty set.\<close>

definition RibPolicyStatement_ctor ::
  "('p \<Rightarrow> 'n) \<Rightarrow> 'p thrift_RibPolicyStatement \<Rightarrow> OpenrError + 'n RibPolicyStatement" where
  "RibPolicyStatement_ctor toIPNetwork stmt =
     (if set_weight (action stmt) = None then
        Inl (OpenrError ''Missing policy_statement.action.set_weight attribute'')
      else case prefixes (matcher stmt) of
        None \<Rightarrow> Inl (OpenrError ''Missing policy_statement.matcher.prefixes attribute'')
      | Some tPrefixes \<Rightarrow>
          Inr \<lparr> name' = name stmt, action' = action stmt,
                prefixSet' = fold (\<lambda>tPrefix s. insert (toIPNetwork tPrefix) s) tPrefixes {} \<rparr>)"

text \<open>\<open>toThrift\<close>. \<open>toIpPrefix\<close> is a parameter like \<open>toIPNetwork\<close>. The order in which
  a \<open>std::unordered_set\<close> is traversed is not determined by its contents as far as the
  program is concerned; \<open>iter\<close> gives the traversal of a set as a list, and is a
  parameter.\<close>

definition RibPolicyStatement_toThrift ::
  "('n \<Rightarrow> 'p) \<Rightarrow> ('n set \<Rightarrow> 'n list) \<Rightarrow> 'n RibPolicyStatement \<Rightarrow> 'p thrift_RibPolicyStatement" where
  "RibPolicyStatement_toThrift toIpPrefix iter s =
     \<lparr> name = name' s,
       matcher = \<lparr> prefixes = Some (fold (\<lambda>prefix ps. ps @ [toIpPrefix prefix]) (iter (prefixSet' s)) []) \<rparr>,
       action = action' s \<rparr>"

definition RibPolicyStatement_match ::
  "'n RibPolicyStatement \<Rightarrow> ('n, 'x, 'z) RibUnicastEntry_scheme \<Rightarrow> bool" where
  "RibPolicyStatement_match s route = (prefix route \<in> prefixSet' s)"

text \<open>\<open>folly::get_default(map, key, dflt)\<close>: the mapped value, or \<open>dflt\<close> when the key is
  absent.\<close>

definition get_default :: "('k \<rightharpoonup> 'v) \<Rightarrow> 'k \<Rightarrow> 'v \<Rightarrow> 'v" where
  "get_default m k dflt = (case m k of None \<Rightarrow> dflt | Some v \<Rightarrow> v)"

text \<open>The body of the loop of \<open>applyAction\<close>: first the value of the local
  \<open>new_weight\<close> for one next-hop, then the conditional insertion into \<open>newNexthops\<close>.\<close>

definition new_weight :: "RibRouteActionWeight \<Rightarrow> 'x NextHopThrift_scheme \<Rightarrow> nat" where
  "new_weight weightAction nh =
     (case area nh of
        None \<Rightarrow> default_weight weightAction
      | Some a \<Rightarrow> get_default (area_to_weight weightAction) a (default_weight weightAction))"

definition applyAction_body ::
  "RibRouteActionWeight \<Rightarrow> 'x NextHopThrift_scheme \<Rightarrow> 'x NextHopThrift_scheme set
     \<Rightarrow> 'x NextHopThrift_scheme set" where
  "applyAction_body weightAction nh newNexthops =
     (if new_weight weightAction nh > 0
      then insert (nh\<lparr>weight := new_weight weightAction nh\<rparr>) newNexthops
      else newNexthops)"

text \<open>\<open>applyAction\<close> returns the boolean together with the route as the call leaves it.
  \<open>iter\<close> is the traversal order of \<open>route.nexthops\<close>.\<close>

definition RibPolicyStatement_applyAction ::
  "('x NextHopThrift_scheme set \<Rightarrow> 'x NextHopThrift_scheme list) \<Rightarrow> 'n RibPolicyStatement
     \<Rightarrow> ('n, 'x, 'z) RibUnicastEntry_scheme
     \<Rightarrow> fatal + (bool \<times> ('n, 'x, 'z) RibUnicastEntry_scheme)" where
  "RibPolicyStatement_applyAction iter s route =
     (if \<not> RibPolicyStatement_match s route then Inr (False, route)
      else case set_weight (action' s) of
        None \<Rightarrow> Inl CheckFailed
      | Some weightAction \<Rightarrow>
          Inr (True,
               route\<lparr>nexthops := fold (applyAction_body weightAction) (iter (nexthops route)) {}\<rparr>))"

text \<open>The candidate weight in the words of the specification: the mapped weight if the
  next-hop has an area and that area is a key of the area-to-weight mapping, the default
  weight otherwise.\<close>

definition candidateWeight :: "RibRouteActionWeight \<Rightarrow> 'x NextHopThrift_scheme \<Rightarrow> nat" where
  "candidateWeight weightAction nh =
     (if area nh \<noteq> None \<and> the (area nh) \<in> dom (area_to_weight weightAction)
      then the (area_to_weight weightAction (the (area nh)))
      else default_weight weightAction)"

section \<open>RibPolicy\<close>

text \<open>The constructor: \<open>validUntilTs_\<close> is initialised first, then the statements are
  checked and converted one by one, the first failure leaving the constructor.\<close>

fun ctor_statements ::
  "('p \<Rightarrow> 'n) \<Rightarrow> 'p thrift_RibPolicyStatement list \<Rightarrow> 'n RibPolicyStatement list
     \<Rightarrow> OpenrError + 'n RibPolicyStatement list" where
  "ctor_statements toIPNetwork [] policyStatements = Inr policyStatements"
| "ctor_statements toIPNetwork (statement # rest) policyStatements =
     (case RibPolicyStatement_ctor toIPNetwork statement of
        Inl error \<Rightarrow> Inl error
      | Inr s \<Rightarrow> ctor_statements toIPNetwork rest (policyStatements @ [s]))"

definition RibPolicy_ctor ::
  "('p \<Rightarrow> 'n) \<Rightarrow> time_point \<Rightarrow> 'p thrift_RibPolicy \<Rightarrow> OpenrError + 'n RibPolicy" where
  "RibPolicy_ctor toIPNetwork now policy =
     (let validUntilTs = now + ttl_secs policy * 1000000000 in
      if statements policy = [] then Inl (OpenrError ''Missing policy.statements attribute'')
      else case ctor_statements toIPNetwork (statements policy) [] of
        Inl error \<Rightarrow> Inl error
      | Inr policyStatements \<Rightarrow>
          Inr \<lparr> policyStatements' = policyStatements, validUntilTs' = validUntilTs \<rparr>)"

text \<open>\<open>std::chrono::duration_cast\<close> from nanoseconds to a coarser unit of \<open>per\<close>
  nanoseconds: integer division that truncates towards zero.\<close>

definition duration_cast :: "int \<Rightarrow> nanoseconds \<Rightarrow> int" where
  "duration_cast per d = (if d < 0 then - ((- d) div per) else d div per)"

text \<open>The implicit conversion of a 64-bit count to a signed field of \<open>bits\<close> bits keeps
  the low \<open>bits\<close> bits, read as two's complement. A count fits the field when it lies
  between the field's least and greatest value.\<close>

definition narrow :: "nat \<Rightarrow> int \<Rightarrow> int" where
  "narrow bits c = signed_take_bit (bits - 1) c"

definition fits :: "nat \<Rightarrow> int \<Rightarrow> bool" where
  "fits bits c = (- (2 ^ (bits - 1)) \<le> c \<and> c < 2 ^ (bits - 1))"

text \<open>\<open>toThrift\<close>: the statements in order, then the remaining time cast to seconds and
  stored into the field \<open>ttl_secs\<close> of \<open>bits\<close> bits.\<close>

definition RibPolicy_toThrift ::
  "('n \<Rightarrow> 'p) \<Rightarrow> ('n set \<Rightarrow> 'n list) \<Rightarrow> nat \<Rightarrow> time_point \<Rightarrow> 'n RibPolicy
     \<Rightarrow> 'p thrift_RibPolicy" where
  "RibPolicy_toThrift toIpPrefix iter bits now p =
     \<lparr> statements =
         fold (\<lambda>statement ss. ss @ [RibPolicyStatement_toThrift toIpPrefix iter statement])
           (policyStatements' p) [],
       ttl_secs = narrow bits (duration_cast 1000000000 (validUntilTs' p - now)) \<rparr>"

definition getTtlDuration :: "time_point \<Rightarrow> 'n RibPolicy \<Rightarrow> int" where
  "getTtlDuration now p = duration_cast 1000000 (validUntilTs' p - now)"

definition isActive :: "time_point \<Rightarrow> 'n RibPolicy \<Rightarrow> bool" where
  "isActive now p = (getTtlDuration now p > 0)"

fun match_statements ::
  "'n RibPolicyStatement list \<Rightarrow> ('n, 'x, 'z) RibUnicastEntry_scheme \<Rightarrow> bool" where
  "match_statements [] route = False"
| "match_statements (statement # rest) route =
     (if RibPolicyStatement_match statement route then True else match_statements rest route)"

definition RibPolicy_match :: "'n RibPolicy \<Rightarrow> ('n, 'x, 'z) RibUnicastEntry_scheme \<Rightarrow> bool" where
  "RibPolicy_match p route = match_statements (policyStatements' p) route"

text \<open>\<open>RibPolicy::applyAction\<close>: a statement that returns false has left the route as it
  was (its result is discarded here and the unchanged route goes to the next
  statement); the first that returns true ends the loop.\<close>

fun applyAction_statements ::
  "('x NextHopThrift_scheme set \<Rightarrow> 'x NextHopThrift_scheme list) \<Rightarrow> 'n RibPolicyStatement list
     \<Rightarrow> ('n, 'x, 'z) RibUnicastEntry_scheme
     \<Rightarrow> fatal + (bool \<times> ('n, 'x, 'z) RibUnicastEntry_scheme)" where
  "applyAction_statements iter [] route = Inr (False, route)"
| "applyAction_statements iter (statement # rest) route =
     (case RibPolicyStatement_applyAction iter statement route of
        Inl f \<Rightarrow> Inl f
      | Inr (True, route') \<Rightarrow> Inr (True, route')
      | Inr (False, route') \<Rightarrow> applyAction_statements iter rest route')"

definition RibPolicy_applyAction ::
  "('x NextHopThrift_scheme set \<Rightarrow> 'x NextHopThrift_scheme list) \<Rightarrow> 'n RibPolicy
     \<Rightarrow> ('n, 'x, 'z) RibUnicastEntry_scheme
     \<Rightarrow> fatal + (bool \<times> ('n, 'x, 'z) RibUnicastEntry_scheme)" where
  "RibPolicy_applyAction iter p route = applyAction_statements iter (policyStatements' p) route"

section \<open>Example values\<close>

text \<open>A policy of two statements over the same two prefixes, a route with one next-hop
  in area east and one in area west, and traversal orders for the two kinds of
  unordered set. Prefixes are written as strings and converted by the identity.\<close>

definition ex_weightAction :: RibRouteActionWeight where
  "ex_weightAction = \<lparr> default_weight = 0, area_to_weight = [''east'' \<mapsto> 10] \<rparr>"

definition ex_weightAction2 :: RibRouteActionWeight where
  "ex_weightAction2 = \<lparr> default_weight = 7, area_to_weight = Map.empty \<rparr>"

definition ex_statement :: "string thrift_RibPolicyStatement" where
  "ex_statement =
     \<lparr> name = ''te'', matcher = \<lparr> prefixes = Some [''10.0.0.0/8'', ''192.168.0.0/16''] \<rparr>,
       action = \<lparr> set_weight = Some ex_weightAction \<rparr> \<rparr>"

definition ex_statement2 :: "string thrift_RibPolicyStatement" where
  "ex_statement2 =
     \<lparr> name = ''fallback'',
       matcher = \<lparr> prefixes = Some [''192.168.0.0/16'', ''10.0.0.0/8'', ''192.168.0.0/16''] \<rparr>,
       action = \<lparr> set_weight = Some ex_weightAction2 \<rparr> \<rparr>"

definition ex_policy :: "string thrift_RibPolicy" where
  "ex_policy = \<lparr> statements = [ex_statement, ex_statement2], ttl_secs = 30 \<rparr>"

definition ex_s :: "string RibPolicyStatement" where
  "ex_s = \<lparr> name' = ''te'', action' = \<lparr> set_weight = Some ex_weightAction \<rparr>,
     prefixSet' = {''10.0.0.0/8'', ''192.168.0.0/16''} \<rparr>"

definition ex_s2 :: "string RibPolicyStatement" where
  "ex_s2 = \<lparr> name' = ''fallback'', action' = \<lparr> set_weight = Some ex_weightAction2 \<rparr>,
     prefixSet' = {''10.0.0.0/8'', ''192.168.0.0/16''} \<rparr>"

definition ex_p :: "string RibPolicy" where
  "ex_p = \<lparr> policyStatements' = [ex_s, ex_s2], validUntilTs' = 30000000000 \<rparr>"

definition nh_east :: NextHopThrift where
  "nh_east = \<lparr> address = ''fe80::1'', area = Some ''east'', weight = 1 \<rparr>"

definition nh_west :: NextHopThrift where
  "nh_west = \<lparr> address = ''fe80::2'', area = Some ''west'', weight = 1 \<rparr>"

definition ex_route :: "string \<Rightarrow> (string, unit) RibUnicastEntry" where
  "ex_route pfx = \<lparr> prefix = pfx, nexthops = {nh_east, nh_west} \<rparr>"

definition ex_iter :: "NextHopThrift set \<Rightarrow> NextHopThrift list" where
  "ex_iter nhs = [nh_west, nh_east]"

definition ex_prefix_iter :: "string set \<Rightarrow> string list" where
  "ex_prefix_iter ps = [''192.168.0.0/16'', ''10.0.0.0/8'']"

definition ex_statement_empty :: "string thrift_RibPolicyStatement" where
  "ex_statement_empty =
     \<lparr> name = ''nothing'', matcher = \<lparr> prefixes = Some [] \<rparr>,
       action = \<lparr> set_weight = Some ex_weightAction \<rparr> \<rparr>"

definition ex_statement_no_action :: "string thrift_RibPolicyStatement" where
  "ex_statement_no_action =
     \<lparr> name = ''no-action'', matcher = \<lparr> prefixes = Some [''10.0.0.0/8''] \<rparr>,
       action = \<lparr> set_weight = None \<rparr> \<rparr>"

definition ex_statement_no_matcher :: "string thrift_RibPolicyStatement" where
  "ex_statement_no_matcher =
     \<lparr> name = ''no-matcher'', matcher = \<lparr> prefixes = None \<rparr>,
       action = \<lparr> set_weight = Some ex_weightAction \<rparr> \<rparr>"

lemmas ex_defs = ex_weightAction_def ex_weightAction2_def ex_statement_def ex_statement2_def
  ex_policy_def ex_s_def ex_s2_def ex_p_def nh_east_def nh_west_def ex_route_def ex_iter_def
  ex_prefix_iter_def ex_statement_empty_def ex_statement_no_action_def
  ex_statement_no_matcher_def

section \<open>Auxiliary facts\<close>

lemma fold_insert_image: "fold (\<lambda>x s. insert (f x) s) xs S = f ` set xs \<union> S"
  by (induction xs arbitrary: S) auto

lemma fold_snoc_map: "fold (\<lambda>x ys. ys @ [f x]) xs acc = acc @ map f xs"
  by (induction xs arbitrary: acc) auto

lemma new_weight_candidateWeight: "new_weight wa nh = candidateWeight wa nh"
  by (auto simp: new_weight_def candidateWeight_def get_default_def split: option.splits)

lemma fold_applyAction_body:
  "fold (applyAction_body wa) nhs S =
     (\<lambda>nh. nh\<lparr>weight := new_weight wa nh\<rparr>) ` {nh \<in> set nhs. 0 < new_weight wa nh} \<union> S"
  by (induction nhs arbitrary: S) (auto simp: applyAction_body_def)

lemma RibPolicyStatement_ctor_Inr:
  "RibPolicyStatement_ctor toIPNetwork stmt = Inr s \<longleftrightarrow>
     (\<exists>wa ps. set_weight (action stmt) = Some wa \<and> prefixes (matcher stmt) = Some ps \<and>
        s = \<lparr> name' = name stmt, action' = action stmt, prefixSet' = toIPNetwork ` set ps \<rparr>)"
  by (auto simp: RibPolicyStatement_ctor_def fold_insert_image split: option.splits)

lemma ctor_statements_Inr:
  "ctor_statements toIPNetwork defs acc = Inr sts \<longleftrightarrow>
     (\<exists>sts'. sts = acc @ sts' \<and>
        list_all2 (\<lambda>d s. RibPolicyStatement_ctor toIPNetwork d = Inr s) defs sts')"
proof (induction defs arbitrary: acc)
  case Nil
  then show ?case by auto
next
  case (Cons d defs)
  show ?case
  proof (cases "RibPolicyStatement_ctor toIPNetwork d")
    case (Inl e)
    then show ?thesis by (auto simp: list_all2_Cons1)
  next
    case (Inr s)
    then show ?thesis by (auto simp: Cons.IH list_all2_Cons1)
  qed
qed

lemma RibPolicy_ctor_Inr:
  "RibPolicy_ctor toIPNetwork now policy = Inr p \<longleftrightarrow>
     statements policy \<noteq> [] \<and>
     list_all2 (\<lambda>d s. RibPolicyStatement_ctor toIPNetwork d = Inr s) (statements policy)
       (policyStatements' p) \<and>
     validUntilTs' p = now + ttl_secs policy * 1000000000"
proof (cases "ctor_statements toIPNetwork (statements policy) []")
  case (Inl e)
  then have "\<not> list_all2 (\<lambda>d s. RibPolicyStatement_ctor toIPNetwork d = Inr s)
      (statements policy) (policyStatements' p)"
    using ctor_statements_Inr [of toIPNetwork "statements policy" "[]" "policyStatements' p"]
    by simp
  with Inl show ?thesis by (simp add: RibPolicy_ctor_def)
next
  case (Inr sts)
  then have "list_all2 (\<lambda>d s. RibPolicyStatement_ctor toIPNetwork d = Inr s)
      (statements policy) (policyStatements' p) \<longleftrightarrow> policyStatements' p = sts"
    using ctor_statements_Inr [of toIPNetwork "statements policy" "[]" "policyStatements' p"]
    by auto
  with Inr show ?thesis by (cases p) (auto simp: RibPolicy_ctor_def)
qed

lemma applyAction_statements_find:
  assumes "\<forall>s \<in> set sts. set_weight (action' s) \<noteq> None"
  shows "applyAction_statements iter sts route =
     (case find (\<lambda>s. RibPolicyStatement_match s route) sts of
        None \<Rightarrow> Inr (False, route)
      | Some s \<Rightarrow> RibPolicyStatement_applyAction iter s route)"
  using assms
  by (induction sts) (auto simp: RibPolicyStatement_applyAction_def split: option.splits)

lemma list_all2_ctor_set_weight:
  assumes "list_all2 (\<lambda>d s. RibPolicyStatement_ctor toIPNetwork d = Inr s) defs sts"
  shows "\<forall>s \<in> set sts. set_weight (action' s) \<noteq> None"
  using assms by (induction rule: list_all2_induct) (auto simp: RibPolicyStatement_ctor_Inr)

lemma ex_ctor_s: "RibPolicyStatement_ctor (\<lambda>p. p) ex_statement = Inr ex_s"
  by (auto simp: RibPolicyStatement_ctor_def ex_defs)

lemma ex_ctor_s2: "RibPolicyStatement_ctor (\<lambda>p. p) ex_statement2 = Inr ex_s2"
  by (auto simp: RibPolicyStatement_ctor_def ex_defs)

lemma ex_ctor_p: "RibPolicy_ctor (\<lambda>p. p) 0 ex_policy = Inr ex_p"
  by (simp add: RibPolicy_ctor_def ex_policy_def ex_p_def ex_ctor_s ex_ctor_s2)

lemma ex_applyAction_s:
  "RibPolicyStatement_applyAction ex_iter ex_s (ex_route ''192.168.0.0/16'') =
     Inr (True, \<lparr> prefix = ''192.168.0.0/16'', nexthops = {nh_east\<lparr>weight := 10\<rparr>} \<rparr>)"
  by (simp add: RibPolicyStatement_applyAction_def RibPolicyStatement_match_def
      applyAction_body_def new_weight_def get_default_def ex_defs)

lemma duration_cast_pos_iff:
  assumes "0 < per"
  shows "0 < duration_cast per d \<longleftrightarrow> per \<le> d"
proof (cases "d < 0")
  case True
  with assms have "0 \<le> (- d) div per" by (simp add: pos_imp_zdiv_nonneg_iff)
  with True assms show ?thesis by (simp add: duration_cast_def)
next
  case False
  with assms show ?thesis by (simp add: duration_cast_def pos_imp_zdiv_pos_iff)
qed

lemma duration_cast_neg_iff:
  assumes "0 < per"
  shows "duration_cast per d < 0 \<longleftrightarrow> d \<le> - per"
proof (cases "d < 0")
  case True
  with assms show ?thesis by (simp add: duration_cast_def pos_imp_zdiv_pos_iff) linarith
next
  case False
  with assms have "0 \<le> d div per" by (simp add: pos_imp_zdiv_nonneg_iff)
  with False assms show ?thesis by (simp add: duration_cast_def)
qed

lemma duration_cast_bounds:
  assumes "0 < per"
  shows "d - per < duration_cast per d * per" and "duration_cast per d * per < d + per"
    and "0 \<le> d \<Longrightarrow> duration_cast per d * per \<le> d"
    and "d \<le> 0 \<Longrightarrow> d \<le> duration_cast per d * per"
proof -
  have eq: "x div per * per = x - x mod per" for x
    by (simp add: minus_mod_eq_div_mult)
  have m: "0 \<le> x mod per" "x mod per < per" for x
    using assms by simp_all
  have neg: "duration_cast per d * per = d + (- d) mod per" if "d < 0"
    using that by (simp add: duration_cast_def eq)
  have pos: "duration_cast per d * per = d - d mod per" if "\<not> d < 0"
    using that by (simp add: duration_cast_def eq)
  show "d - per < duration_cast per d * per"
    using m [of d] m [of "- d"] neg pos by (cases "d < 0") linarith+
  show "duration_cast per d * per < d + per"
    using m [of d] m [of "- d"] neg pos by (cases "d < 0") linarith+
  show "0 \<le> d \<Longrightarrow> duration_cast per d * per \<le> d"
    using m [of d] pos by linarith
  show "d \<le> 0 \<Longrightarrow> d \<le> duration_cast per d * per"
  proof (cases "d < 0")
    case True
    then show ?thesis using m [of "- d"] neg by linarith
  next
    case False
    assume "d \<le> 0"
    with False have "d = 0" by simp
    then show ?thesis by (simp add: duration_cast_def)
  qed
qed

lemma duration_cast_mono:
  assumes "0 < per" and "d1 \<le> d2"
  shows "duration_cast per d1 \<le> duration_cast per d2"
proof -
  consider "d2 < 0" | "d1 < 0" "0 \<le> d2" | "0 \<le> d1" by linarith
  then show ?thesis
  proof cases
    case 1
    with assms have "(- d2) div per \<le> (- d1) div per" by (intro zdiv_mono1) simp_all
    with 1 assms show ?thesis by (simp add: duration_cast_def)
  next
    case 2
    with assms have "0 \<le> (- d1) div per" "0 \<le> d2 div per"
      by (simp_all add: pos_imp_zdiv_nonneg_iff)
    with 2 show ?thesis by (simp add: duration_cast_def)
  next
    case 3
    with assms have "d1 div per \<le> d2 div per" by (intro zdiv_mono1) simp_all
    with 3 assms show ?thesis by (simp add: duration_cast_def)
  qed
qed

lemma duration_cast_strict:
  assumes "0 < per" and "d1 + 2 * per \<le> d2"
  shows "duration_cast per d1 < duration_cast per d2"
proof -
  have "duration_cast per d1 * per < d1 + per"
    by (rule duration_cast_bounds(2) [OF assms(1)])
  also have "d1 + per \<le> d2 - per" using assms(2) by simp
  also have "d2 - per < duration_cast per d2 * per"
    by (rule duration_cast_bounds(1) [OF assms(1)])
  finally show ?thesis using assms(1) by (simp add: mult_less_cancel_right)
qed

lemma duration_cast_multiple:
  assumes "0 < per"
  shows "duration_cast per (k * per) = k"
proof -
  have "- (k * per) div per = - k"
    using assms by (simp flip: mult_minus_left)
  with assms show ?thesis by (simp add: duration_cast_def)
qed

lemma ctor_all_list_all2:
  assumes "\<forall>d \<in> set defs. \<exists>s. RibPolicyStatement_ctor toIPNetwork d = Inr s"
  shows "\<exists>sts. list_all2 (\<lambda>d s. RibPolicyStatement_ctor toIPNetwork d = Inr s) defs sts"
  using assms
proof (induction defs)
  case Nil
  then show ?case by simp
next
  case (Cons d defs)
  then obtain s sts where "RibPolicyStatement_ctor toIPNetwork d = Inr s"
    and "list_all2 (\<lambda>d s. RibPolicyStatement_ctor toIPNetwork d = Inr s) defs sts"
    by auto
  then have "list_all2 (\<lambda>d s. RibPolicyStatement_ctor toIPNetwork d = Inr s) (d # defs) (s # sts)"
    by simp
  then show ?case by blast
qed

lemma isActive_conv: "isActive now p \<longleftrightarrow> now + 1000000 \<le> validUntilTs' p"
proof -
  have "0 < duration_cast 1000000 (validUntilTs' p - now) \<longleftrightarrow> 1000000 \<le> validUntilTs' p - now"
    by (rule duration_cast_pos_iff) simp
  then show ?thesis by (simp add: isActive_def getTtlDuration_def) linarith
qed

lemma ctor_statements_Inl:
  "ctor_statements toIPNetwork defs acc = Inl e \<longleftrightarrow>
     (\<exists>pre d post. defs = pre @ d # post \<and>
        (\<forall>x \<in> set pre. \<exists>s. RibPolicyStatement_ctor toIPNetwork x = Inr s) \<and>
        RibPolicyStatement_ctor toIPNetwork d = Inl e)"
proof (induction defs arbitrary: acc)
  case Nil
  then show ?case by simp
next
  case (Cons a defs)
  show ?case
  proof (cases "RibPolicyStatement_ctor toIPNetwork a")
    case (Inl e0)
    have "(\<exists>pre d post. a # defs = pre @ d # post \<and>
        (\<forall>x \<in> set pre. \<exists>s. RibPolicyStatement_ctor toIPNetwork x = Inr s) \<and>
        RibPolicyStatement_ctor toIPNetwork d = Inl e) \<longleftrightarrow> e0 = e"
    proof
      assume "\<exists>pre d post. a # defs = pre @ d # post \<and>
        (\<forall>x \<in> set pre. \<exists>s. RibPolicyStatement_ctor toIPNetwork x = Inr s) \<and>
        RibPolicyStatement_ctor toIPNetwork d = Inl e"
      then obtain pre d post where *: "a # defs = pre @ d # post"
        "\<forall>x \<in> set pre. \<exists>s. RibPolicyStatement_ctor toIPNetwork x = Inr s"
        "RibPolicyStatement_ctor toIPNetwork d = Inl e"
        by blast
      show "e0 = e"
      proof (cases pre)
        case Nil
        with * Inl show ?thesis by simp
      next
        case (Cons b pre')
        with * Inl show ?thesis by auto
      qed
    next
      assume "e0 = e"
      with Inl have "a # defs = [] @ a # defs \<and>
        (\<forall>x \<in> set []. \<exists>s. RibPolicyStatement_ctor toIPNetwork x = Inr s) \<and>
        RibPolicyStatement_ctor toIPNetwork a = Inl e"
        by simp
      then show "\<exists>pre d post. a # defs = pre @ d # post \<and>
        (\<forall>x \<in> set pre. \<exists>s. RibPolicyStatement_ctor toIPNetwork x = Inr s) \<and>
        RibPolicyStatement_ctor toIPNetwork d = Inl e"
        by blast
    qed
    with Inl show ?thesis by simp
  next
    case (Inr s0)
    have "(\<exists>pre d post. a # defs = pre @ d # post \<and>
        (\<forall>x \<in> set pre. \<exists>s. RibPolicyStatement_ctor toIPNetwork x = Inr s) \<and>
        RibPolicyStatement_ctor toIPNetwork d = Inl e) \<longleftrightarrow>
      (\<exists>pre d post. defs = pre @ d # post \<and>
        (\<forall>x \<in> set pre. \<exists>s. RibPolicyStatement_ctor toIPNetwork x = Inr s) \<and>
        RibPolicyStatement_ctor toIPNetwork d = Inl e)" (is "?L \<longleftrightarrow> ?R")
    proof
      assume ?L
      then obtain pre d post where *: "a # defs = pre @ d # post"
        "\<forall>x \<in> set pre. \<exists>s. RibPolicyStatement_ctor toIPNetwork x = Inr s"
        "RibPolicyStatement_ctor toIPNetwork d = Inl e"
        by blast
      show ?R
      proof (cases pre)
        case Nil
        with * Inr show ?thesis by simp
      next
        case (Cons b pre')
        with * have "defs = pre' @ d # post"
          "\<forall>x \<in> set pre'. \<exists>s. RibPolicyStatement_ctor toIPNetwork x = Inr s"
          by simp_all
        with *(3) show ?thesis by blast
      qed
    next
      assume ?R
      then obtain pre d post where *: "defs = pre @ d # post"
        "\<forall>x \<in> set pre. \<exists>s. RibPolicyStatement_ctor toIPNetwork x = Inr s"
        "RibPolicyStatement_ctor toIPNetwork d = Inl e"
        by blast
      with Inr have "a # defs = (a # pre) @ d # post"
        "\<forall>x \<in> set (a # pre). \<exists>s. RibPolicyStatement_ctor toIPNetwork x = Inr s"
        by simp_all
      with *(3) show ?L by blast
    qed
    with Inr show ?thesis by (simp add: Cons.IH)
  qed
qed

lemma RibPolicyStatement_ctor_Inl:
  "RibPolicyStatement_ctor toIPNetwork stmt = Inl e \<longleftrightarrow>
     (set_weight (action stmt) = None \<and>
        e = OpenrError ''Missing policy_statement.action.set_weight attribute'') \<or>
     (set_weight (action stmt) \<noteq> None \<and> prefixes (matcher stmt) = None \<and>
        e = OpenrError ''Missing policy_statement.matcher.prefixes attribute'')"
  by (auto simp: RibPolicyStatement_ctor_def split: option.splits)

lemma RibPolicy_ctor_Inl:
  "RibPolicy_ctor toIPNetwork now policy = Inl e \<longleftrightarrow>
     (statements policy = [] \<and> e = OpenrError ''Missing policy.statements attribute'') \<or>
     (\<exists>pre d post. statements policy = pre @ d # post \<and>
        (\<forall>x \<in> set pre. \<exists>s. RibPolicyStatement_ctor toIPNetwork x = Inr s) \<and>
        RibPolicyStatement_ctor toIPNetwork d = Inl e)"
proof (cases "statements policy = []")
  case True
  then show ?thesis by (auto simp: RibPolicy_ctor_def)
next
  case False
  then have "RibPolicy_ctor toIPNetwork now policy = Inl e \<longleftrightarrow>
      ctor_statements toIPNetwork (statements policy) [] = Inl e"
    by (simp add: RibPolicy_ctor_def split: sum.splits)
  with False show ?thesis by (simp add: ctor_statements_Inl)
qed

lemma first_failing_statement:
  assumes "\<exists>d \<in> set defs. \<exists>e. RibPolicyStatement_ctor toIPNetwork d = Inl e"
  shows "\<exists>pre d post e. defs = pre @ d # post \<and>
     (\<forall>x \<in> set pre. \<exists>s. RibPolicyStatement_ctor toIPNetwork x = Inr s) \<and>
     RibPolicyStatement_ctor toIPNetwork d = Inl e"
proof -
  from assms obtain pre d post where d: "defs = pre @ d # post"
    "\<exists>e. RibPolicyStatement_ctor toIPNetwork d = Inl e"
    "\<forall>x \<in> set pre. \<not> (\<exists>e. RibPolicyStatement_ctor toIPNetwork x = Inl e)"
    using split_list_first_prop [of defs "\<lambda>d. \<exists>e. RibPolicyStatement_ctor toIPNetwork d = Inl e"]
    by blast
  have "\<exists>s. RibPolicyStatement_ctor toIPNetwork x = Inr s" if "x \<in> set pre" for x
    using d(3) that by (cases "RibPolicyStatement_ctor toIPNetwork x") auto
  with d show ?thesis by blast
qed

lemma ctor_toThrift:
  assumes "RibPolicyStatement_ctor toIPNetwork d = Inr s"
    and "\<And>x. toIPNetwork (toIpPrefix (toIPNetwork x)) = toIPNetwork x"
    and "set (iter (prefixSet' s)) = prefixSet' s"
  shows "RibPolicyStatement_ctor toIPNetwork (RibPolicyStatement_toThrift toIpPrefix iter s) = Inr s"
proof -
  from assms(1) obtain wa ps where s: "set_weight (action' s) = Some wa"
    "prefixSet' s = toIPNetwork ` set ps"
    by (auto simp: RibPolicyStatement_ctor_Inr)
  have "toIPNetwork ` toIpPrefix ` prefixSet' s = prefixSet' s"
    unfolding s(2) using assms(2) by (auto simp: image_iff)
  with s(1) assms(3) show ?thesis
    by (simp add: RibPolicyStatement_ctor_Inr RibPolicyStatement_toThrift_def fold_snoc_map)
qed

lemma list_all2_ctor_toThrift:
  assumes "list_all2 (\<lambda>d s. RibPolicyStatement_ctor toIPNetwork d = Inr s) defs sts"
    and "\<And>x. toIPNetwork (toIpPrefix (toIPNetwork x)) = toIPNetwork x"
    and "\<And>s. s \<in> set sts \<Longrightarrow> set (iter (prefixSet' s)) = prefixSet' s"
  shows "list_all2 (\<lambda>d s. RibPolicyStatement_ctor toIPNetwork d = Inr s)
     (map (RibPolicyStatement_toThrift toIpPrefix iter) sts) sts"
  using assms(1,3)
proof (induction rule: list_all2_induct)
  case Nil
  then show ?case by simp
next
  case (Cons d defs s sts)
  then show ?case by (simp add: ctor_toThrift [OF Cons.hyps(1) assms(2)])
qed

lemma list_all2_ctor_fields:
  assumes "list_all2 (\<lambda>d s. RibPolicyStatement_ctor toIPNetwork d = Inr s) defs sts"
  shows "map name' sts = map name defs" and "map action' sts = map action defs"
  using assms by (induction rule: list_all2_induct) (auto simp: RibPolicyStatement_ctor_Inr)

lemma statements_toThrift:
  "statements (RibPolicy_toThrift toIpPrefix iter bits now p) =
     map (RibPolicyStatement_toThrift toIpPrefix iter) (policyStatements' p)"
  by (simp add: RibPolicy_toThrift_def fold_snoc_map)

lemma narrow_fits: "fits bits c \<Longrightarrow> narrow bits c = c"
  by (simp add: narrow_def fits_def signed_take_bit_int_eq_self)

lemma ttl_secs_toThrift:
  assumes "fits bits (duration_cast 1000000000 (validUntilTs' p - now))"
  shows "ttl_secs (RibPolicy_toThrift toIpPrefix iter bits now p) =
     duration_cast 1000000000 (validUntilTs' p - now)"
  using assms by (simp add: RibPolicy_toThrift_def narrow_fits)

text \<open>The store wraps when the count does not fit: a policy built at instant 0 with the
  least \<open>ttl_secs\<close> of a 32-bit field and serialized one second later carries the
  greatest value of the field.\<close>

lemma toThrift_ttl_wraps:
  "RibPolicy_ctor (\<lambda>p. p) 0 (ex_policy\<lparr>ttl_secs := - 2147483648\<rparr>) =
     Inr (ex_p\<lparr>validUntilTs' := - 2147483648000000000\<rparr>) \<and>
   ttl_secs (RibPolicy_toThrift (\<lambda>n. n) ex_prefix_iter 32 1000000000
      (ex_p\<lparr>validUntilTs' := - 2147483648000000000\<rparr>)) = 2147483647"
proof -
  have "RibPolicy_ctor (\<lambda>p. p) 0 (ex_policy\<lparr>ttl_secs := - 2147483648\<rparr>) =
     Inr (ex_p\<lparr>validUntilTs' := - 2147483648000000000\<rparr>)"
    by (simp add: RibPolicy_ctor_def ex_policy_def ex_p_def ex_ctor_s ex_ctor_s2)
  moreover have "narrow 32 (- 2147483649) = 2147483647"
    by (simp add: narrow_def signed_take_bit_eq_take_bit_shift take_bit_eq_mod)
  ultimately show ?thesis
    by (simp add: RibPolicy_toThrift_def duration_cast_def ex_p_def)
qed

section \<open>RibPolicyStatement::applyAction\<close>

text \<open>
  Claim C1. For a statement built by the constructor and a route whose prefix is in the
  statement's prefix set, \<open>applyAction\<close> returns true and replaces \<open>route.nexthops\<close> by
  the set of copies of the original next-hops with the weight set to the candidate
  weight (the \<open>area_to_weight\<close> entry of the next-hop's area when the next-hop has an area
  that is a key of the mapping, \<open>default_weight\<close> otherwise), leaving out the next-hops
  whose candidate weight is 0; the result is a set, so copies that become equal are one
  element. The traversal \<open>iter\<close> of the route's next-hops visits exactly its elements.
\<close>

theorem applyAction_matching:
  assumes "RibPolicyStatement_ctor toIPNetwork stmt = Inr s"
    and "prefix route \<in> prefixSet' s"
    and "set (iter (nexthops route)) = nexthops route"
  shows "\<exists>wa. set_weight (action' s) = Some wa \<and>
           RibPolicyStatement_applyAction iter s route =
             Inr (True, route\<lparr>nexthops :=
               (\<lambda>nh. nh\<lparr>weight := candidateWeight wa nh\<rparr>) `
                 {nh \<in> nexthops route. candidateWeight wa nh \<noteq> 0}\<rparr>)"
proof -
  from assms(1) obtain wa where wa: "set_weight (action' s) = Some wa"
    by (auto simp: RibPolicyStatement_ctor_Inr)
  have "fold (applyAction_body wa) (iter (nexthops route)) {} =
          (\<lambda>nh. nh\<lparr>weight := candidateWeight wa nh\<rparr>) `
             {nh \<in> nexthops route. candidateWeight wa nh \<noteq> 0}"
    by (simp add: fold_applyAction_body assms(3) new_weight_candidateWeight)
  with wa assms(2) show ?thesis
    by (simp add: RibPolicyStatement_applyAction_def RibPolicyStatement_match_def)
qed

theorem applyAction_matching_witness:
  "RibPolicyStatement_ctor (\<lambda>p. p) ex_statement = Inr ex_s \<and>
   prefix (ex_route ''192.168.0.0/16'') \<in> prefixSet' ex_s \<and>
   set (ex_iter (nexthops (ex_route ''192.168.0.0/16''))) = nexthops (ex_route ''192.168.0.0/16'') \<and>
   RibPolicyStatement_applyAction ex_iter ex_s (ex_route ''192.168.0.0/16'') =
     Inr (True, \<lparr> prefix = ''192.168.0.0/16'', nexthops = {nh_east\<lparr>weight := 10\<rparr>} \<rparr>)"
proof -
  have h1: "RibPolicyStatement_ctor (\<lambda>p. p) ex_statement = Inr ex_s"
    by (rule ex_ctor_s)
  have h2: "prefix (ex_route ''192.168.0.0/16'') \<in> prefixSet' ex_s"
    by (simp add: ex_defs)
  have h3: "set (ex_iter (nexthops (ex_route ''192.168.0.0/16''))) =
      nexthops (ex_route ''192.168.0.0/16'')"
    by (auto simp: ex_defs)
  have cw: "candidateWeight ex_weightAction nh_east = 10"
    "candidateWeight ex_weightAction nh_west = 0"
    by (simp_all add: candidateWeight_def ex_defs)
  have sel: "{nh \<in> {nh_east, nh_west}. candidateWeight ex_weightAction nh \<noteq> 0} = {nh_east}"
    using cw by auto
  from applyAction_matching [of "\<lambda>p. p" ex_statement ex_s "ex_route ''192.168.0.0/16''" ex_iter,
      OF h1 h2 h3]
  have "RibPolicyStatement_applyAction ex_iter ex_s (ex_route ''192.168.0.0/16'') =
     Inr (True, \<lparr> prefix = ''192.168.0.0/16'', nexthops = {nh_east\<lparr>weight := 10\<rparr>} \<rparr>)"
    using sel cw by (auto simp: ex_s_def ex_route_def)
  with h1 h2 h3 show ?thesis by simp
qed

text \<open>
  Claim C7. \<open>applyAction\<close> of a constructed statement returns normally, and the route it
  leaves differs from the route it was given in the next-hop collection at most: the
  prefix, and every other field, is the one passed in. When the route's prefix is not in
  the statement's prefix set the call returns false and the route is unchanged.
\<close>

theorem applyAction_frame:
  assumes "RibPolicyStatement_ctor toIPNetwork stmt = Inr s"
  shows "(\<exists>matched nhs. RibPolicyStatement_applyAction iter s route =
            Inr (matched, route\<lparr>nexthops := nhs\<rparr>)) \<and>
         (\<forall>matched route'. RibPolicyStatement_applyAction iter s route = Inr (matched, route')
            \<longrightarrow> prefix route' = prefix route) \<and>
         (prefix route \<notin> prefixSet' s \<longrightarrow>
            RibPolicyStatement_applyAction iter s route = Inr (False, route))"
proof -
  from assms obtain wa where wa: "set_weight (action' s) = Some wa"
    by (auto simp: RibPolicyStatement_ctor_Inr)
  have "route = route\<lparr>nexthops := nexthops route\<rparr>" by simp
  then have "\<exists>nhs. route = route\<lparr>nexthops := nhs\<rparr>" by blast
  with wa show ?thesis
    by (auto simp: RibPolicyStatement_applyAction_def RibPolicyStatement_match_def)
qed

theorem applyAction_frame_witness:
  "RibPolicyStatement_ctor (\<lambda>p. p) ex_statement = Inr ex_s \<and>
   prefix (ex_route ''192.168.1.0/24'') \<notin> prefixSet' ex_s \<and>
   RibPolicyStatement_applyAction ex_iter ex_s (ex_route ''192.168.1.0/24'') =
     Inr (False, ex_route ''192.168.1.0/24'') \<and>
   (\<exists>matched nhs. RibPolicyStatement_applyAction ex_iter ex_s (ex_route ''192.168.0.0/16'') =
      Inr (matched, \<lparr> prefix = ''192.168.0.0/16'', nexthops = nhs \<rparr>))"
proof -
  have h2: "prefix (ex_route ''192.168.1.0/24'') \<notin> prefixSet' ex_s"
    by (simp add: ex_defs)
  from applyAction_frame [of "\<lambda>p. p" ex_statement ex_s ex_iter "ex_route ''192.168.1.0/24''",
      OF ex_ctor_s] h2
  have a: "RibPolicyStatement_applyAction ex_iter ex_s (ex_route ''192.168.1.0/24'') =
     Inr (False, ex_route ''192.168.1.0/24'')"
    by blast
  from applyAction_frame [of "\<lambda>p. p" ex_statement ex_s ex_iter "ex_route ''192.168.0.0/16''",
      OF ex_ctor_s]
  have b: "\<exists>matched nhs. RibPolicyStatement_applyAction ex_iter ex_s (ex_route ''192.168.0.0/16'') =
      Inr (matched, \<lparr> prefix = ''192.168.0.0/16'', nexthops = nhs \<rparr>)"
    by (simp add: ex_route_def)
  from ex_ctor_s h2 a b show ?thesis by blast
qed

section \<open>RibPolicy::applyAction\<close>

text \<open>
  Claim C2. \<open>RibPolicy::applyAction\<close> of a constructed policy goes through the statements
  in definition order and ends at the first one whose \<open>applyAction\<close> returns true: the
  outcome is that of the first statement (in list order) that matches the route, applied
  to the route as passed in, whatever the statements after it are; with no matching
  statement the route is unchanged. The call returns true if and only if some statement
  matches.
\<close>

theorem RibPolicy_applyAction_first_match:
  assumes "RibPolicy_ctor toIPNetwork now policy = Inr p"
  shows "RibPolicy_applyAction iter p route =
           (case find (\<lambda>s. RibPolicyStatement_match s route) (policyStatements' p) of
              None \<Rightarrow> Inr (False, route)
            | Some s \<Rightarrow> RibPolicyStatement_applyAction iter s route) \<and>
         (\<exists>matched route'. RibPolicy_applyAction iter p route = Inr (matched, route') \<and>
            (matched \<longleftrightarrow> (\<exists>s \<in> set (policyStatements' p). RibPolicyStatement_match s route)))"
proof -
  from assms have inv: "\<forall>s \<in> set (policyStatements' p). set_weight (action' s) \<noteq> None"
    by (auto simp: RibPolicy_ctor_Inr dest: list_all2_ctor_set_weight)
  have first: "RibPolicy_applyAction iter p route =
           (case find (\<lambda>s. RibPolicyStatement_match s route) (policyStatements' p) of
              None \<Rightarrow> Inr (False, route)
            | Some s \<Rightarrow> RibPolicyStatement_applyAction iter s route)"
    by (simp add: RibPolicy_applyAction_def applyAction_statements_find [OF inv])
  show ?thesis
  proof (cases "find (\<lambda>s. RibPolicyStatement_match s route) (policyStatements' p)")
    case None
    then have "\<not> (\<exists>s \<in> set (policyStatements' p). RibPolicyStatement_match s route)"
      by (simp add: find_None_iff)
    with first None show ?thesis by auto
  next
    case (Some s)
    then have s: "s \<in> set (policyStatements' p)" "RibPolicyStatement_match s route"
      by (auto simp: find_Some_iff)
    with inv obtain wa where "set_weight (action' s) = Some wa" by auto
    with s first Some show ?thesis
      by (auto simp: RibPolicyStatement_applyAction_def)
  qed
qed

theorem RibPolicy_applyAction_first_match_witness:
  "RibPolicy_ctor (\<lambda>p. p) 0 ex_policy = Inr ex_p \<and>
   RibPolicyStatement_match ex_s (ex_route ''192.168.0.0/16'') \<and>
   RibPolicyStatement_match ex_s2 (ex_route ''192.168.0.0/16'') \<and>
   RibPolicy_applyAction ex_iter ex_p (ex_route ''192.168.0.0/16'') =
     Inr (True, \<lparr> prefix = ''192.168.0.0/16'', nexthops = {nh_east\<lparr>weight := 10\<rparr>} \<rparr>) \<and>
   RibPolicyStatement_applyAction ex_iter ex_s2 (ex_route ''192.168.0.0/16'') =
     Inr (True, \<lparr> prefix = ''192.168.0.0/16'',
                  nexthops = {nh_east\<lparr>weight := 7\<rparr>, nh_west\<lparr>weight := 7\<rparr>} \<rparr>)"
proof -
  have m: "RibPolicyStatement_match ex_s (ex_route ''192.168.0.0/16'')"
    "RibPolicyStatement_match ex_s2 (ex_route ''192.168.0.0/16'')"
    by (simp_all add: RibPolicyStatement_match_def ex_defs)
  have f: "find (\<lambda>s. RibPolicyStatement_match s (ex_route ''192.168.0.0/16''))
      (policyStatements' ex_p) = Some ex_s"
    using m by (simp add: ex_p_def)
  from RibPolicy_applyAction_first_match [of "\<lambda>p. p" 0 ex_policy ex_p ex_iter
      "ex_route ''192.168.0.0/16''", OF ex_ctor_p]
  have a: "RibPolicy_applyAction ex_iter ex_p (ex_route ''192.168.0.0/16'') =
     Inr (True, \<lparr> prefix = ''192.168.0.0/16'', nexthops = {nh_east\<lparr>weight := 10\<rparr>} \<rparr>)"
    by (simp add: f ex_applyAction_s)
  have b: "RibPolicyStatement_applyAction ex_iter ex_s2 (ex_route ''192.168.0.0/16'') =
     Inr (True, \<lparr> prefix = ''192.168.0.0/16'',
                  nexthops = {nh_east\<lparr>weight := 7\<rparr>, nh_west\<lparr>weight := 7\<rparr>} \<rparr>)"
    by (auto simp: RibPolicyStatement_applyAction_def RibPolicyStatement_match_def
        applyAction_body_def new_weight_def get_default_def ex_defs)
  from ex_ctor_p m a b show ?thesis by simp
qed

section \<open>The TTL of a RibPolicy\<close>

text \<open>
  Claim C4 as stated: \<open>isActive\<close> is true if and only if \<open>validUntil\<close> is strictly after
  the current instant. It fails when less than a millisecond remains: the policy built at
  instant 0 with \<open>ttl_secs = 30\<close> is valid until 30 s, and at 29.9995 s, which is strictly
  before that, \<open>isActive\<close> is already false.
\<close>

theorem isActive_strictly_after_counterexample:
  "RibPolicy_ctor (\<lambda>p. p) 0 ex_policy = Inr ex_p \<and>
   29999500000 < validUntilTs' ex_p \<and> \<not> isActive 29999500000 ex_p"
  by (simp add: ex_ctor_p) (simp add: isActive_def getTtlDuration_def duration_cast_def ex_p_def)

text \<open>
  Claim C4, amended. \<open>isActive\<close> compares the remaining time in whole milliseconds with
  zero: it is true if and only if \<open>validUntil\<close> is at least one millisecond after the
  current instant.
\<close>

theorem isActive_iff:
  "isActive now p \<longleftrightarrow> now + 1000000 \<le> validUntilTs' p"
  by (rule isActive_conv)

text \<open>
  Claim C9 as stated: \<open>getTtlDuration\<close> is exactly \<open>validUntil\<close> minus the current instant,
  negative once the policy has expired, and strictly decreasing as the clock advances.
  For the policy valid until 30 s: half a millisecond after expiry (and one nanosecond
  later still) the value is 0 ms, which is neither negative nor the half millisecond that
  has passed, and it has not decreased between the two instants.
\<close>

theorem getTtlDuration_exact_counterexample:
  "RibPolicy_ctor (\<lambda>p. p) 0 ex_policy = Inr ex_p \<and>
   validUntilTs' ex_p < 30000500000 \<and>
   \<not> getTtlDuration 30000500000 ex_p < 0 \<and>
   getTtlDuration 30000500000 ex_p * 1000000 \<noteq> validUntilTs' ex_p - 30000500000 \<and>
   (30000500000 :: int) < 30000500001 \<and>
   \<not> getTtlDuration 30000500001 ex_p < getTtlDuration 30000500000 ex_p"
  by (simp add: ex_ctor_p) (simp add: getTtlDuration_def duration_cast_def ex_p_def)

text \<open>
  Claim C9, amended. \<open>getTtlDuration\<close> is \<open>validUntil\<close> minus the current instant,
  truncated towards zero to whole milliseconds, and not clamped: it differs from the
  exact difference by less than a millisecond and is never larger in magnitude; it is
  negative exactly when the policy expired at least one millisecond ago; it never
  increases as the clock advances, and it is strictly smaller whenever the clock has
  advanced by two milliseconds or more.
\<close>

theorem getTtlDuration_truncated:
  "\<bar>(validUntilTs' p - now) - getTtlDuration now p * 1000000\<bar> < 1000000 \<and>
   \<bar>getTtlDuration now p * 1000000\<bar> \<le> \<bar>validUntilTs' p - now\<bar> \<and>
   (getTtlDuration now p < 0 \<longleftrightarrow> validUntilTs' p + 1000000 \<le> now) \<and>
   (now \<le> now' \<longrightarrow> getTtlDuration now' p \<le> getTtlDuration now p) \<and>
   (now + 2000000 \<le> now' \<longrightarrow> getTtlDuration now' p < getTtlDuration now p)"
proof -
  let ?d = "validUntilTs' p - now"
  have per: "(0::int) < 1000000" by simp
  note b = duration_cast_bounds [OF per, of ?d]
  have 1: "\<bar>?d - getTtlDuration now p * 1000000\<bar> < 1000000"
    using b(1,2) by (simp add: getTtlDuration_def)
  have 2: "\<bar>getTtlDuration now p * 1000000\<bar> \<le> \<bar>?d\<bar>"
  proof (cases "0 \<le> ?d")
    case True
    then have "0 \<le> duration_cast 1000000 ?d"
      using duration_cast_neg_iff [OF per, of ?d] by simp
    with True b(3) show ?thesis by (simp add: getTtlDuration_def)
  next
    case False
    then have "duration_cast 1000000 ?d \<le> 0"
      using duration_cast_pos_iff [OF per, of ?d] by simp
    with False b(4) show ?thesis by (simp add: getTtlDuration_def)
  qed
  have 3: "getTtlDuration now p < 0 \<longleftrightarrow> validUntilTs' p + 1000000 \<le> now"
    using duration_cast_neg_iff [OF per, of ?d] by (simp add: getTtlDuration_def) linarith
  have 4: "getTtlDuration now' p \<le> getTtlDuration now p" if "now \<le> now'"
    unfolding getTtlDuration_def using that by (intro duration_cast_mono) simp_all
  have 5: "getTtlDuration now' p < getTtlDuration now p" if "now + 2000000 \<le> now'"
    unfolding getTtlDuration_def using that by (intro duration_cast_strict) simp_all
  from 1 2 3 4 5 show ?thesis by blast
qed

theorem getTtlDuration_truncated_witness:
  "(0::int) \<le> 2000000 \<and> (0::int) + 2000000 \<le> 2000000 \<and>
   getTtlDuration 0 ex_p = 30000 \<and> getTtlDuration 2000000 ex_p = 29998 \<and>
   getTtlDuration 2000000 ex_p < getTtlDuration 0 ex_p \<and>
   getTtlDuration 2000000 ex_p \<le> getTtlDuration 0 ex_p"
proof -
  have v: "getTtlDuration 0 ex_p = 30000" "getTtlDuration 2000000 ex_p = 29998"
    by (simp_all add: getTtlDuration_def duration_cast_def ex_p_def)
  from getTtlDuration_truncated [of ex_p 0 2000000]
  have "getTtlDuration 2000000 ex_p < getTtlDuration 0 ex_p"
    "getTtlDuration 2000000 ex_p \<le> getTtlDuration 0 ex_p"
    by simp_all
  with v show ?thesis by simp
qed

text \<open>
  Claim C10. The constructor of \<open>RibPolicy\<close> does not look at \<open>ttl_secs\<close>: when the
  statement list is not empty and every statement is accepted by the statement
  constructor, construction succeeds and \<open>validUntil\<close> is the construction instant plus
  \<open>ttl_secs\<close> seconds; when \<open>ttl_secs\<close> is zero or negative this is at or before the
  construction instant, and \<open>isActive\<close> is false at the construction instant and at every
  later one.
\<close>

theorem RibPolicy_ctor_ignores_ttl:
  assumes "statements policy \<noteq> []"
    and "\<forall>d \<in> set (statements policy). \<exists>s. RibPolicyStatement_ctor toIPNetwork d = Inr s"
  shows "\<exists>p. RibPolicy_ctor toIPNetwork now policy = Inr p \<and>
           validUntilTs' p = now + ttl_secs policy * 1000000000 \<and>
           (ttl_secs policy \<le> 0 \<longrightarrow>
              validUntilTs' p \<le> now \<and> (\<forall>now'. now \<le> now' \<longrightarrow> \<not> isActive now' p))"
proof -
  from ctor_all_list_all2 [OF assms(2)] obtain sts where
    sts: "list_all2 (\<lambda>d s. RibPolicyStatement_ctor toIPNetwork d = Inr s) (statements policy) sts"
    by blast
  let ?p = "\<lparr> policyStatements' = sts, validUntilTs' = now + ttl_secs policy * 1000000000 \<rparr>"
  have c: "RibPolicy_ctor toIPNetwork now policy = Inr ?p"
    using assms(1) sts by (simp add: RibPolicy_ctor_Inr)
  have "validUntilTs' ?p \<le> now \<and> (\<forall>now'. now \<le> now' \<longrightarrow> \<not> isActive now' ?p)"
    if "ttl_secs policy \<le> 0"
  proof -
    from that have "ttl_secs policy * 1000000000 \<le> 0"
      by (simp add: mult_le_0_iff)
    then show ?thesis by (auto simp: isActive_conv)
  qed
  with c show ?thesis by (intro exI [of _ ?p]) simp
qed

theorem RibPolicy_ctor_ignores_ttl_witness:
  "statements (ex_policy\<lparr>ttl_secs := - 5\<rparr>) \<noteq> [] \<and>
   RibPolicyStatement_ctor (\<lambda>p. p) ex_statement = Inr ex_s \<and>
   RibPolicyStatement_ctor (\<lambda>p. p) ex_statement2 = Inr ex_s2 \<and>
   ttl_secs (ex_policy\<lparr>ttl_secs := - 5\<rparr>) \<le> 0 \<and>
   (\<exists>p. RibPolicy_ctor (\<lambda>p. p) 100 (ex_policy\<lparr>ttl_secs := - 5\<rparr>) = Inr p \<and>
      validUntilTs' p = - 4999999900 \<and> \<not> isActive 100 p \<and> \<not> isActive 101 p)"
proof -
  let ?policy = "ex_policy\<lparr>ttl_secs := - 5\<rparr>"
  have h1: "statements ?policy \<noteq> []" by (simp add: ex_policy_def)
  have h2: "\<forall>d \<in> set (statements ?policy). \<exists>s. RibPolicyStatement_ctor (\<lambda>p. p) d = Inr s"
    by (simp add: ex_policy_def ex_ctor_s ex_ctor_s2)
  have h3: "ttl_secs ?policy \<le> 0" by simp
  from RibPolicy_ctor_ignores_ttl [of ?policy "\<lambda>p. p" 100, OF h1 h2] h3
  have "\<exists>p. RibPolicy_ctor (\<lambda>p. p) 100 ?policy = Inr p \<and>
      validUntilTs' p = - 4999999900 \<and> \<not> isActive 100 p \<and> \<not> isActive 101 p"
    by auto
  with h1 h3 ex_ctor_s ex_ctor_s2 show ?thesis by blast
qed

section \<open>Validation at construction\<close>

text \<open>
  Claim C3. The constructors fail exactly for the three missing-field conditions. A
  statement is rejected if and only if \<open>action.set_weight\<close> is absent (checked first) or
  \<open>matcher.prefixes\<close> is absent, each with its own message. A policy is rejected if and
  only if its statement list is empty or some statement is rejected; in the second case
  the error that leaves the policy constructor is the one of the first rejected
  statement. The result is then the error alone: a constructor returns either an error or
  an object.
\<close>

theorem ctor_validation_errors:
  "(RibPolicyStatement_ctor toIPNetwork stmt = Inl e \<longleftrightarrow>
      (set_weight (action stmt) = None \<and>
         e = OpenrError ''Missing policy_statement.action.set_weight attribute'') \<or>
      (set_weight (action stmt) \<noteq> None \<and> prefixes (matcher stmt) = None \<and>
         e = OpenrError ''Missing policy_statement.matcher.prefixes attribute'')) \<and>
   (RibPolicy_ctor toIPNetwork now policy = Inl e' \<longleftrightarrow>
      (statements policy = [] \<and> e' = OpenrError ''Missing policy.statements attribute'') \<or>
      (\<exists>pre d post. statements policy = pre @ d # post \<and>
         (\<forall>x \<in> set pre. \<exists>s. RibPolicyStatement_ctor toIPNetwork x = Inr s) \<and>
         RibPolicyStatement_ctor toIPNetwork d = Inl e')) \<and>
   ((\<exists>err. RibPolicy_ctor toIPNetwork now policy = Inl err) \<longleftrightarrow>
      statements policy = [] \<or>
      (\<exists>d \<in> set (statements policy).
         set_weight (action d) = None \<or> prefixes (matcher d) = None))"
proof -
  have fail: "(\<exists>err. RibPolicyStatement_ctor toIPNetwork d = Inl err) \<longleftrightarrow>
      set_weight (action d) = None \<or> prefixes (matcher d) = None" for d
    by (cases "set_weight (action d)"; cases "prefixes (matcher d)")
      (simp_all add: RibPolicyStatement_ctor_def)
  have "(\<exists>err. RibPolicy_ctor toIPNetwork now policy = Inl err) \<longleftrightarrow>
      statements policy = [] \<or>
      (\<exists>d \<in> set (statements policy). \<exists>err. RibPolicyStatement_ctor toIPNetwork d = Inl err)"
    (is "?L \<longleftrightarrow> ?R")
  proof
    assume ?L
    then show ?R unfolding RibPolicy_ctor_Inl by auto
  next
    assume ?R
    then show ?L
    proof
      assume "statements policy = []"
      then show ?L by (simp add: RibPolicy_ctor_Inl)
    next
      assume "\<exists>d \<in> set (statements policy). \<exists>err. RibPolicyStatement_ctor toIPNetwork d = Inl err"
      from first_failing_statement [OF this] show ?L
        unfolding RibPolicy_ctor_Inl by blast
    qed
  qed
  then have "(\<exists>err. RibPolicy_ctor toIPNetwork now policy = Inl err) \<longleftrightarrow>
      statements policy = [] \<or>
      (\<exists>d \<in> set (statements policy).
         set_weight (action d) = None \<or> prefixes (matcher d) = None)"
    by (simp add: fail)
  then show ?thesis
    using RibPolicyStatement_ctor_Inl [of toIPNetwork stmt e]
      RibPolicy_ctor_Inl [of toIPNetwork now policy e']
    by blast
qed

theorem ctor_validation_errors_witness:
  "RibPolicyStatement_ctor (\<lambda>p. p) ex_statement_no_action =
     Inl (OpenrError ''Missing policy_statement.action.set_weight attribute'') \<and>
   RibPolicyStatement_ctor (\<lambda>p. p) ex_statement_no_matcher =
     Inl (OpenrError ''Missing policy_statement.matcher.prefixes attribute'') \<and>
   RibPolicy_ctor (\<lambda>p. p) 0 \<lparr> statements = [] :: string thrift_RibPolicyStatement list, ttl_secs = 30 \<rparr> =
     Inl (OpenrError ''Missing policy.statements attribute'') \<and>
   RibPolicy_ctor (\<lambda>p. p) 0
       \<lparr> statements = [ex_statement, ex_statement_no_matcher, ex_statement_no_action],
         ttl_secs = 30 \<rparr> =
     Inl (OpenrError ''Missing policy_statement.matcher.prefixes attribute'')"
proof -
  let ?e1 = "OpenrError ''Missing policy_statement.action.set_weight attribute''"
  let ?e2 = "OpenrError ''Missing policy_statement.matcher.prefixes attribute''"
  let ?e3 = "OpenrError ''Missing policy.statements attribute''"
  let ?bad = "\<lparr> statements = [ex_statement, ex_statement_no_matcher, ex_statement_no_action],
         ttl_secs = 30 \<rparr>"
  have 1: "RibPolicyStatement_ctor (\<lambda>p. p) ex_statement_no_action = Inl ?e1"
    by (rule ctor_validation_errors [of _ _ _ 0 ?bad ?e2, THEN conjunct1, THEN iffD2])
      (simp add: ex_statement_no_action_def)
  have 2: "RibPolicyStatement_ctor (\<lambda>p. p) ex_statement_no_matcher = Inl ?e2"
    by (rule ctor_validation_errors [of _ _ _ 0 ?bad ?e2, THEN conjunct1, THEN iffD2])
      (simp add: ex_statement_no_matcher_def)
  have 3: "RibPolicy_ctor (\<lambda>p. p) 0 \<lparr> statements = [] :: string thrift_RibPolicyStatement list, ttl_secs = 30 \<rparr> = Inl ?e3"
    by (rule ctor_validation_errors [of "\<lambda>p. p" ex_statement ?e1, THEN conjunct2,
          THEN conjunct1, THEN iffD2])
      simp
  have 4: "RibPolicy_ctor (\<lambda>p. p) 0 ?bad = Inl ?e2"
    by (rule ctor_validation_errors [of "\<lambda>p. p" ex_statement ?e1, THEN conjunct2,
          THEN conjunct1, THEN iffD2],
        intro disjI2 exI [of _ "[ex_statement]"] exI [of _ ex_statement_no_matcher]
          exI [of _ "[ex_statement_no_action]"])
      (simp add: ex_ctor_s 2)
  from 1 2 3 4 show ?thesis by simp
qed

text \<open>
  Claim C8 as stated: a definition whose prefix list is present but empty is rejected.
  The constructor accepts it: the statement below has \<open>matcher.prefixes = []\<close> and is
  constructed with an empty prefix set.
\<close>

theorem ctor_empty_prefixes_counterexample:
  "prefixes (matcher ex_statement_empty) = Some [] \<and>
   RibPolicyStatement_ctor (\<lambda>p. p) ex_statement_empty =
     Inr \<lparr> name' = ''nothing'', action' = \<lparr> set_weight = Some ex_weightAction \<rparr>,
           prefixSet' = {} \<rparr>"
  by (simp add: RibPolicyStatement_ctor_def ex_statement_empty_def)

text \<open>
  Claim C8, amended. Constructing a \<open>RibPolicyStatement\<close> requires the \<open>matcher.prefixes\<close>
  field to be present: a definition without it fails with a validation error. A
  definition that has a \<open>set_weight\<close> action and a prefix list that is present but empty
  is accepted, and the statement it yields has an empty prefix set and matches no route.
\<close>

theorem ctor_requires_prefixes_field:
  "(prefixes (matcher stmt) = None \<longrightarrow>
      (\<exists>e. RibPolicyStatement_ctor toIPNetwork stmt = Inl e)) \<and>
   (set_weight (action stmt) \<noteq> None \<and> prefixes (matcher stmt) = Some [] \<longrightarrow>
      (\<exists>s. RibPolicyStatement_ctor toIPNetwork stmt = Inr s \<and> prefixSet' s = {} \<and>
         (\<forall>route :: ('n, 'x, 'z) RibUnicastEntry_scheme. \<not> RibPolicyStatement_match s route)))"
  by (auto simp: RibPolicyStatement_ctor_def RibPolicyStatement_match_def)

theorem ctor_requires_prefixes_field_witness:
  "prefixes (matcher ex_statement_no_matcher) = None \<and>
   (\<exists>e. RibPolicyStatement_ctor (\<lambda>p. p) ex_statement_no_matcher = Inl e) \<and>
   set_weight (action ex_statement_empty) \<noteq> None \<and>
   prefixes (matcher ex_statement_empty) = Some [] \<and>
   (\<exists>s. RibPolicyStatement_ctor (\<lambda>p. p) ex_statement_empty = Inr s \<and> prefixSet' s = {} \<and>
      \<not> RibPolicyStatement_match s (ex_route ''10.0.0.0/8''))"
proof -
  have a: "prefixes (matcher ex_statement_no_matcher) = None"
    by (simp add: ex_statement_no_matcher_def)
  have b: "set_weight (action ex_statement_empty) \<noteq> None \<and>
      prefixes (matcher ex_statement_empty) = Some []"
    by (simp add: ex_statement_empty_def)
  from ctor_requires_prefixes_field [of ex_statement_no_matcher "\<lambda>p. p"] a
  have 1: "\<exists>e. RibPolicyStatement_ctor (\<lambda>p. p) ex_statement_no_matcher = Inl e"
    by blast
  from ctor_requires_prefixes_field [of ex_statement_empty "\<lambda>p. p",
      where ?'x = unit and ?'z = unit] b
  have 2: "\<exists>s. RibPolicyStatement_ctor (\<lambda>p. p) ex_statement_empty = Inr s \<and> prefixSet' s = {} \<and>
      \<not> RibPolicyStatement_match s (ex_route ''10.0.0.0/8'')"
    by blast
  from a b 1 2 show ?thesis by blast
qed

section \<open>Serialization\<close>

text \<open>
  Claim C5 as stated: the emitted \<open>ttl_secs\<close> is \<open>validUntil\<close> minus the instant of
  serialization, and serializing at two different instants yields different values. For
  the policy valid until 30 s, serialized into a 32-bit field at 1 ns and at 2 ns: both
  outputs carry \<open>ttl_secs = 29\<close>, and 29 s is not the time that remains at 1 ns.
\<close>

theorem toThrift_ttl_differs_counterexample:
  "RibPolicy_ctor (\<lambda>p. p) 0 ex_policy = Inr ex_p \<and>
   (1 :: int) \<noteq> 2 \<and>
   ttl_secs (RibPolicy_toThrift (\<lambda>n. n) ex_prefix_iter 32 1 ex_p) = 29 \<and>
   ttl_secs (RibPolicy_toThrift (\<lambda>n. n) ex_prefix_iter 32 2 ex_p) = 29 \<and>
   ttl_secs (RibPolicy_toThrift (\<lambda>n. n) ex_prefix_iter 32 1 ex_p) * 1000000000 \<noteq>
     validUntilTs' ex_p - 1"
proof -
  have c: "duration_cast 1000000000 (validUntilTs' ex_p - 1) = 29"
    "duration_cast 1000000000 (validUntilTs' ex_p - 2) = 29"
    by (simp_all add: duration_cast_def ex_p_def)
  have f: "fits 32 29" by (simp add: fits_def)
  have "ttl_secs (RibPolicy_toThrift (\<lambda>n. n) ex_prefix_iter 32 1 ex_p) = 29"
    "ttl_secs (RibPolicy_toThrift (\<lambda>n. n) ex_prefix_iter 32 2 ex_p) = 29"
    by (simp_all add: RibPolicy_toThrift_def c narrow_fits [OF f])
  then show ?thesis by (simp add: ex_ctor_p) (simp add: ex_p_def)
qed

text \<open>
  Claim C5, amended. Serializing a constructed \<open>RibPolicy\<close> at instant \<open>t\<close> emits the
  statements in their original order, each with the name and the action of the
  definition it was built from. When the remaining time \<open>validUntil - t\<close>, truncated
  towards zero to whole seconds, fits the \<open>ttl_secs\<close> field, that is the value emitted: it
  is within one second of the exact difference and never larger in magnitude, and it is
  below the configured \<open>ttl_secs\<close> once a full second has passed since construction. For
  two instants at both of which the value fits, the later one never emits a larger
  value, and emits a smaller one when the instants are at least two seconds apart.
\<close>

theorem toThrift_remaining_ttl:
  assumes "RibPolicy_ctor toIPNetwork t0 policy = Inr p"
  shows "statements (RibPolicy_toThrift toIpPrefix iter bits t p) =
           map (RibPolicyStatement_toThrift toIpPrefix iter) (policyStatements' p) \<and>
         map name (statements (RibPolicy_toThrift toIpPrefix iter bits t p)) =
           map name (statements policy) \<and>
         map action (statements (RibPolicy_toThrift toIpPrefix iter bits t p)) =
           map action (statements policy) \<and>
         (fits bits (duration_cast 1000000000 (validUntilTs' p - t)) \<longrightarrow>
            ttl_secs (RibPolicy_toThrift toIpPrefix iter bits t p) =
              duration_cast 1000000000 (validUntilTs' p - t) \<and>
            \<bar>(validUntilTs' p - t) -
                ttl_secs (RibPolicy_toThrift toIpPrefix iter bits t p) * 1000000000\<bar>
              < 1000000000 \<and>
            \<bar>ttl_secs (RibPolicy_toThrift toIpPrefix iter bits t p) * 1000000000\<bar>
              \<le> \<bar>validUntilTs' p - t\<bar> \<and>
            (t0 + 1000000000 \<le> t \<longrightarrow>
               ttl_secs (RibPolicy_toThrift toIpPrefix iter bits t p) < ttl_secs policy) \<and>
            (fits bits (duration_cast 1000000000 (validUntilTs' p - t')) \<longrightarrow>
               (t \<le> t' \<longrightarrow> ttl_secs (RibPolicy_toThrift toIpPrefix iter bits t' p)
                  \<le> ttl_secs (RibPolicy_toThrift toIpPrefix iter bits t p)) \<and>
               (t + 2000000000 \<le> t' \<longrightarrow> ttl_secs (RibPolicy_toThrift toIpPrefix iter bits t' p)
                  < ttl_secs (RibPolicy_toThrift toIpPrefix iter bits t p))))"
proof -
  let ?d = "validUntilTs' p - t"
  let ?ttl = "\<lambda>t. ttl_secs (RibPolicy_toThrift toIpPrefix iter bits t p)"
  let ?fits = "\<lambda>t. fits bits (duration_cast 1000000000 (validUntilTs' p - t))"
  have per: "(0::int) < 1000000000" by simp
  note b = duration_cast_bounds [OF per, of ?d]
  from assms have sts: "list_all2 (\<lambda>d s. RibPolicyStatement_ctor toIPNetwork d = Inr s)
      (statements policy) (policyStatements' p)"
    and until: "validUntilTs' p = t0 + ttl_secs policy * 1000000000"
    by (simp_all add: RibPolicy_ctor_Inr)
  have 3: "statements (RibPolicy_toThrift toIpPrefix iter bits t p) =
      map (RibPolicyStatement_toThrift toIpPrefix iter) (policyStatements' p)"
    by (rule statements_toThrift)
  have 4: "map name (statements (RibPolicy_toThrift toIpPrefix iter bits t p)) =
      map name (statements policy)"
    using list_all2_ctor_fields(1) [OF sts]
    by (simp add: 3 RibPolicyStatement_toThrift_def comp_def)
  have 5: "map action (statements (RibPolicy_toThrift toIpPrefix iter bits t p)) =
      map action (statements policy)"
    using list_all2_ctor_fields(2) [OF sts]
    by (simp add: 3 RibPolicyStatement_toThrift_def comp_def)
  have 0: "?ttl t = duration_cast 1000000000 ?d" if "?fits t"
    by (rule ttl_secs_toThrift [OF that])
  have 1: "\<bar>?d - ?ttl t * 1000000000\<bar> < 1000000000" if "?fits t"
    using b(1,2) by (simp add: 0 [OF that])
  have 2: "\<bar>?ttl t * 1000000000\<bar> \<le> \<bar>?d\<bar>" if "?fits t"
  proof (cases "0 \<le> ?d")
    case True
    then have "0 \<le> duration_cast 1000000000 ?d"
      using duration_cast_neg_iff [OF per, of ?d] by simp
    with True b(3) show ?thesis by (simp add: 0 [OF that])
  next
    case False
    then have "duration_cast 1000000000 ?d \<le> 0"
      using duration_cast_pos_iff [OF per, of ?d] by simp
    with False b(4) show ?thesis by (simp add: 0 [OF that])
  qed
  have 6: "?ttl t' \<le> ?ttl t" if "?fits t" "?fits t'" "t \<le> t'"
    unfolding ttl_secs_toThrift [OF that(1)] ttl_secs_toThrift [OF that(2)]
    using that(3) by (intro duration_cast_mono) simp_all
  have 7: "?ttl t' < ?ttl t" if "?fits t" "?fits t'" "t + 2000000000 \<le> t'"
    unfolding ttl_secs_toThrift [OF that(1)] ttl_secs_toThrift [OF that(2)]
    using that(3) by (intro duration_cast_strict) simp_all
  have 8: "?ttl t < ttl_secs policy" if "?fits t" "t0 + 1000000000 \<le> t"
  proof -
    have "?d \<le> (ttl_secs policy - 1) * 1000000000"
      using that(2) by (simp add: until algebra_simps)
    then have "duration_cast 1000000000 ?d \<le>
        duration_cast 1000000000 ((ttl_secs policy - 1) * 1000000000)"
      by (rule duration_cast_mono [OF per])
    also have "\<dots> = ttl_secs policy - 1"
      by (rule duration_cast_multiple [OF per])
    finally show ?thesis by (simp add: 0 [OF that(1)])
  qed
  from 0 1 2 3 4 5 6 7 8 show ?thesis by blast
qed

theorem toThrift_remaining_ttl_witness:
  "RibPolicy_ctor (\<lambda>p. p) 0 ex_policy = Inr ex_p \<and>
   fits 32 (duration_cast 1000000000 (validUntilTs' ex_p - 5000000000)) \<and>
   fits 32 (duration_cast 1000000000 (validUntilTs' ex_p - 7000000000)) \<and>
   (5000000000 :: int) + 2000000000 \<le> 7000000000 \<and> (0 :: int) + 1000000000 \<le> 5000000000 \<and>
   ttl_secs (RibPolicy_toThrift (\<lambda>n. n) ex_prefix_iter 32 5000000000 ex_p) = 25 \<and>
   ttl_secs (RibPolicy_toThrift (\<lambda>n. n) ex_prefix_iter 32 7000000000 ex_p)
     < ttl_secs (RibPolicy_toThrift (\<lambda>n. n) ex_prefix_iter 32 5000000000 ex_p) \<and>
   ttl_secs (RibPolicy_toThrift (\<lambda>n. n) ex_prefix_iter 32 5000000000 ex_p) < ttl_secs ex_policy \<and>
   map name (statements (RibPolicy_toThrift (\<lambda>n. n) ex_prefix_iter 32 5000000000 ex_p)) =
     [''te'', ''fallback'']"
proof -
  note w = toThrift_remaining_ttl [of "\<lambda>p. p" 0 ex_policy ex_p "\<lambda>n. n"
      ex_prefix_iter 32 5000000000 7000000000, OF ex_ctor_p]
  have c: "duration_cast 1000000000 (validUntilTs' ex_p - 5000000000) = 25"
    "duration_cast 1000000000 (validUntilTs' ex_p - 7000000000) = 23"
    by (simp_all add: duration_cast_def ex_p_def)
  have f5: "fits 32 (duration_cast 1000000000 (validUntilTs' ex_p - 5000000000))"
    and f7: "fits 32 (duration_cast 1000000000 (validUntilTs' ex_p - 7000000000))"
    by (simp_all add: c fits_def)
  note w5 = w [THEN conjunct2, THEN conjunct2, THEN conjunct2, THEN mp, OF f5]
  have a: "ttl_secs (RibPolicy_toThrift (\<lambda>n. n) ex_prefix_iter 32 5000000000 ex_p) = 25"
    using w5 [THEN conjunct1] by (simp add: c)
  have lt: "ttl_secs (RibPolicy_toThrift (\<lambda>n. n) ex_prefix_iter 32 7000000000 ex_p)
     < ttl_secs (RibPolicy_toThrift (\<lambda>n. n) ex_prefix_iter 32 5000000000 ex_p)"
    by (rule w5 [THEN conjunct2, THEN conjunct2, THEN conjunct2, THEN conjunct2, THEN mp,
          OF f7, THEN conjunct2, THEN mp])
      simp
  have orig: "ttl_secs (RibPolicy_toThrift (\<lambda>n. n) ex_prefix_iter 32 5000000000 ex_p)
     < ttl_secs ex_policy"
    by (rule w5 [THEN conjunct2, THEN conjunct2, THEN conjunct2, THEN conjunct1, THEN mp])
      simp
  have "map name (statements (RibPolicy_toThrift (\<lambda>n. n) ex_prefix_iter 32 5000000000 ex_p)) =
     map name (statements ex_policy)"
    by (rule w [THEN conjunct2, THEN conjunct1])
  then have d: "map name (statements (RibPolicy_toThrift (\<lambda>n. n) ex_prefix_iter 32 5000000000 ex_p)) =
     [''te'', ''fallback'']"
    by (simp add: ex_policy_def ex_statement_def ex_statement2_def)
  from ex_ctor_p f5 f7 a lt orig d show ?thesis by simp
qed

text \<open>
  Claim C6. Round trip: construct a policy from a definition, serialize it at any
  instant, construct again from the output at any instant. The second construction
  succeeds, and its statements have, one by one and in the same order, the prefix set
  and the action of the first policy's statements, which are the actions of the original
  definition. The order of the prefixes in the serialized form is that of the set's
  traversal. The conversions \<open>toIPNetwork\<close> and \<open>toIpPrefix\<close> are assumed to take a
  converted network back to itself, and the traversal of each prefix set to visit exactly
  its elements.
\<close>

theorem ctor_toThrift_round_trip:
  assumes "RibPolicy_ctor toIPNetwork t0 policy = Inr p"
    and "\<And>x. toIPNetwork (toIpPrefix (toIPNetwork x)) = toIPNetwork x"
    and "\<And>s. s \<in> set (policyStatements' p) \<Longrightarrow> set (iter (prefixSet' s)) = prefixSet' s"
  shows "\<exists>p'. RibPolicy_ctor toIPNetwork t1 (RibPolicy_toThrift toIpPrefix iter bits t p) = Inr p' \<and>
           list_all2 (\<lambda>s' s. prefixSet' s' = prefixSet' s \<and> action' s' = action' s)
             (policyStatements' p') (policyStatements' p) \<and>
           list_all2 (\<lambda>s' d. action' s' = action d) (policyStatements' p') (statements policy)"
proof -
  from assms(1) have ne: "statements policy \<noteq> []"
    and sts: "list_all2 (\<lambda>d s. RibPolicyStatement_ctor toIPNetwork d = Inr s)
      (statements policy) (policyStatements' p)"
    by (simp_all add: RibPolicy_ctor_Inr)
  let ?out = "RibPolicy_toThrift toIpPrefix iter bits t p"
  let ?p' = "\<lparr> policyStatements' = policyStatements' p,
               validUntilTs' = t1 + ttl_secs ?out * 1000000000 \<rparr>"
  from ne sts have "policyStatements' p \<noteq> []" by auto
  moreover have "list_all2 (\<lambda>d s. RibPolicyStatement_ctor toIPNetwork d = Inr s)
      (statements ?out) (policyStatements' p)"
    unfolding statements_toThrift by (rule list_all2_ctor_toThrift [OF sts assms(2,3)])
  ultimately have c: "RibPolicy_ctor toIPNetwork t1 ?out = Inr ?p'"
    by (simp add: RibPolicy_ctor_Inr statements_toThrift)
  have same: "list_all2 (\<lambda>s' s. prefixSet' s' = prefixSet' s \<and> action' s' = action' s)
      (policyStatements' ?p') (policyStatements' p)"
    by (simp add: list_all2_same)
  have "list_all2 (\<lambda>s d. action' s = action d) (policyStatements' p) (statements policy)"
    using sts by (induction rule: list_all2_induct) (auto simp: RibPolicyStatement_ctor_Inr)
  then have orig: "list_all2 (\<lambda>s' d. action' s' = action d) (policyStatements' ?p')
      (statements policy)"
    by simp
  from c same orig show ?thesis by blast
qed

theorem ctor_toThrift_round_trip_witness:
  "RibPolicy_ctor (\<lambda>p. p) 0 ex_policy = Inr ex_p \<and>
   set (ex_prefix_iter (prefixSet' ex_s)) = prefixSet' ex_s \<and>
   set (ex_prefix_iter (prefixSet' ex_s2)) = prefixSet' ex_s2 \<and>
   map (\<lambda>d. prefixes (matcher d))
       (statements (RibPolicy_toThrift (\<lambda>n. n) ex_prefix_iter 32 5000000000 ex_p)) =
     [Some [''192.168.0.0/16'', ''10.0.0.0/8''], Some [''192.168.0.0/16'', ''10.0.0.0/8'']] \<and>
   (\<exists>p'. RibPolicy_ctor (\<lambda>p. p) 9000000000
         (RibPolicy_toThrift (\<lambda>n. n) ex_prefix_iter 32 5000000000 ex_p) = Inr p' \<and>
      map prefixSet' (policyStatements' p') =
        [{''10.0.0.0/8'', ''192.168.0.0/16''}, {''10.0.0.0/8'', ''192.168.0.0/16''}] \<and>
      map action' (policyStatements' p') =
        [\<lparr> set_weight = Some ex_weightAction \<rparr>, \<lparr> set_weight = Some ex_weightAction2 \<rparr>])"
proof -
  have i1: "set (ex_prefix_iter (prefixSet' ex_s)) = prefixSet' ex_s"
    and i2: "set (ex_prefix_iter (prefixSet' ex_s2)) = prefixSet' ex_s2"
    by (auto simp: ex_prefix_iter_def ex_s_def ex_s2_def)
  have h3: "set (ex_prefix_iter (prefixSet' s)) = prefixSet' s"
    if "s \<in> set (policyStatements' ex_p)" for s
    using that i1 i2 by (auto simp: ex_p_def)
  have ser: "map (\<lambda>d. prefixes (matcher d))
       (statements (RibPolicy_toThrift (\<lambda>n. n) ex_prefix_iter 32 5000000000 ex_p)) =
     [Some [''192.168.0.0/16'', ''10.0.0.0/8''], Some [''192.168.0.0/16'', ''10.0.0.0/8'']]"
    by (simp add: RibPolicy_toThrift_def RibPolicyStatement_toThrift_def ex_p_def
        ex_prefix_iter_def)
  from ctor_toThrift_round_trip [of "\<lambda>p. p" 0 ex_policy ex_p "\<lambda>n. n" ex_prefix_iter
      9000000000 32 5000000000, OF ex_ctor_p _ h3]
  obtain p' where p': "RibPolicy_ctor (\<lambda>p. p) 9000000000
         (RibPolicy_toThrift (\<lambda>n. n) ex_prefix_iter 32 5000000000 ex_p) = Inr p'"
    "list_all2 (\<lambda>s' s. prefixSet' s' = prefixSet' s \<and> action' s' = action' s)
       (policyStatements' p') (policyStatements' ex_p)"
    by auto
  from p'(2) obtain a b where ab: "policyStatements' p' = [a, b]"
    "prefixSet' a = prefixSet' ex_s" "action' a = action' ex_s"
    "prefixSet' b = prefixSet' ex_s2" "action' b = action' ex_s2"
    unfolding ex_p_def by (auto simp: list_all2_Cons2)
  then have maps: "map prefixSet' (policyStatements' p') =
        [{''10.0.0.0/8'', ''192.168.0.0/16''}, {''10.0.0.0/8'', ''192.168.0.0/16''}] \<and>
      map action' (policyStatements' p') =
        [\<lparr> set_weight = Some ex_weightAction \<rparr>, \<lparr> set_weight = Some ex_weightAction2 \<rparr>]"
    by (simp add: ex_s_def ex_s2_def)
  from p'(1) maps have "\<exists>p'. RibPolicy_ctor (\<lambda>p. p) 9000000000
         (RibPolicy_toThrift (\<lambda>n. n) ex_prefix_iter 32 5000000000 ex_p) = Inr p' \<and>
      map prefixSet' (policyStatements' p') =
        [{''10.0.0.0/8'', ''192.168.0.0/16''}, {''10.0.0.0/8'', ''192.168.0.0/16''}] \<and>
      map action' (policyStatements' p') =
        [\<lparr> set_weight = Some ex_weightAction \<rparr>, \<lparr> set_weight = Some ex_weightAction2 \<rparr>]"
    by (intro exI [of _ p']) simp
  with ex_ctor_p i1 i2 ser show ?thesis by (intro conjI)
qed

end
